theory Spec2Isabelle
  imports Main "HOL-Library.Sublist"
begin

section \<open>The training-loop driver of boilr (src/boilr/trainer.py)\<close>

text \<open>
  The class \<open>Trainer\<close> drives a collaborator object, the experiment \<open>e\<close>: its
  constructor prepares folders and asks the experiment to build its dataset, model and
  optimizer; \<open>run\<close> iterates over epochs and batches, calls the evaluation pass \<open>_test\<close>
  every \<open>test_log_interval\<close> steps, and writes histories to \<open>log.pkl\<close>.

  The embedding is a state-passing one. Every call the driver makes on an object it does
  not own (the experiment, its model and optimizer, the summarizer, the progress bar, the
  tensorboard writer, the file system) is appended to a trace of events, and may raise:
  whether it does is decided by the environment. An exception is a value: a statement
  returns \<open>Some err\<close> together with the state reached when the exception left it.
  A call on a collaborator changes the state only as the model says: the setup hooks set
  their attribute, \<open>train()\<close> and \<open>eval()\<close> set the mode of the model,
  \<open>increment_global_step()\<close> adds one to the step counter, and every other call leaves
  the attributes the driver reads as they are. Output through Python's built-in
  \<open>print\<close> and the \<open>torch.no_grad()\<close> context are not modelled.
\<close>

subsection \<open>Data\<close>

text \<open>The fields of \<open>experiment.args\<close> that the driver reads. Python integers are unbounded.\<close>

record arguments =
  checkpoint_interval :: int
  test_log_interval :: int
  log_interval :: int
  seed :: int
  no_cuda :: bool
  dry_run :: bool

text \<open>
  A dictionary of metric name to value, in insertion order (keys are distinct in Python).
  The values are floating-point numbers in the source; nothing the driver does depends
  on them, so their type is a parameter.
\<close>

type_synonym 'v summaries = "(string \<times> 'v) list"

text \<open>The dictionary that \<open>History.get_dict\<close> returns and \<open>pickle.dump\<close> serialises.\<close>

type_synonym 'v history_dict = "(string \<times> (int \<times> 'v) list) list"

text \<open>
  Modelled from the spec: the class \<open>History\<close> of \<open>boilr/summarize.py\<close> is imported by
  the driver but its source is not available. The spec describes a history as an ordered,
  append-only sequence of (step, metric name to value) records.
\<close>

type_synonym 'v history = "(int \<times> 'v summaries) list"

text \<open>
  Modelled from the spec: \<open>History.add(summaries, step)\<close>, which appends one record
  (the spec: "append-only").
\<close>

definition history_add :: "'v summaries \<Rightarrow> int \<Rightarrow> 'v history \<Rightarrow> 'v history" where
  "history_add d step h = h @ [(step, d)]"

text \<open>
  Modelled from the spec: \<open>History.get_dict()\<close>. The spec describes the serialised
  history as a "mapping of metric name to ordered (step, value) pairs": every metric name
  that occurs in a record, in order of first occurrence, with the (step, value) pairs of
  the records that hold it, in the order of the records.
\<close>

definition metric_names :: "'v history \<Rightarrow> string list" where
  "metric_names h = remdups (concat (map (\<lambda>(step, d). map fst d) h))"

definition metric_entries :: "'v history \<Rightarrow> string \<Rightarrow> (int \<times> 'v) list" where
  "metric_entries h k =
     concat (map (\<lambda>(step, d). case map_of d k of None \<Rightarrow> [] | Some v \<Rightarrow> [(step, v)]) h)"

definition get_dict :: "'v history \<Rightarrow> 'v history_dict" where
  "get_dict h = map (\<lambda>k. (k, metric_entries h k)) (metric_names h)"

text \<open>What a file written by the driver holds.\<close>

datatype 'v content =
    PickledArgs arguments
  | PickledHistory "'v history_dict"

text \<open>
  The calls the driver makes on objects it does not own, with the arguments it passes.
  \<open>ModelCheckpoint folder k\<close> is \<open>e.model.checkpoint(folder)\<close> called on the model while
  its \<open>global_step\<close> is \<open>k\<close>; \<open>WriteFile path c\<close> is \<open>open(path, 'wb')\<close> followed by
  \<open>pickle.dump\<close> of \<open>c\<close>.
\<close>

datatype 'v event =
    SetRndSeed int
  | MakeDirs string
  | SummaryWriter string
  | WriteFile string "'v content"
  | MakeAndSetDatamanager
  | MakeAndSetModel
  | PrintNumParams
  | MakeAndSetOptimizer
  | ModelTrain
  | ModelEval
  | TestProcedure
  | AdditionalTesting string
  | PrintTestLog "'v summaries" int int
  | AddScalar string 'v int
  | ModelCheckpoint string int
  | Tqdm int
  | ProgressUpdate
  | ProgressClose
  | ZeroGrad
  | ForwardPass
  | Backward
  | GetMetricsDict
  | SummarizerAdd "'v summaries"
  | SummarizerGetAll
  | PrintTrainLog int int "'v summaries"
  | OptimizerStep
  | IncrementGlobalStep

text \<open>
  The exceptions. \<open>AssertionError n\<close> is the \<open>assert\<close> statement of source line \<open>n\<close>;
  \<open>Raised\<close> is any exception raised inside a call on a collaborator or a library (the
  call is then the last event of the trace).
\<close>

datatype error =
    AssertionError nat
  | ZeroDivisionError
  | AttributeError
  | TypeError
  | Raised

text \<open>
  The environment: everything the driver's behaviour depends on that its own code does
  not determine.
  \<^item> \<open>raises ev n\<close>: the call \<open>ev\<close>, made when \<open>n\<close> calls have been made before it, raises;
  \<^item> \<open>have_tensorboard\<close>: the import of \<open>torch.utils.tensorboard\<close> succeeded;
  \<open>cuda_available\<close>: \<open>torch.cuda.is_available()\<close>; \<open>date_str\<close>: \<open>get_date_str()\<close>;
  \<^item> \<open>made_dataloaders\<close>: the value of \<open>e.dataloaders\<close> after
  \<open>make_and_set_datamanager()\<close>, \<open>None\<close> or loaders whose training loader yields so many
  batches per epoch;
  \<^item> \<open>made_model\<close>: the value of \<open>e.model\<close> after \<open>make_and_set_model()\<close>, \<open>None\<close> or a model
  with this \<open>global_step\<close> and training flag;
  \<^item> \<open>made_optimizer\<close>: the value of \<open>e.optimizer\<close> after \<open>make_and_set_optimizer()\<close>;
  \<^item> \<open>test_summaries k\<close>: what \<open>e.test_procedure()\<close> returns at global step \<open>k\<close>;
  \<open>batch_metrics k\<close>: what \<open>e.get_metrics_dict(outputs)\<close> returns at step \<open>k\<close>;
  \<^item> \<open>summarize ds\<close>: what \<open>SummarizerCollection.get_all\<close> returns when the dictionaries
  \<open>ds\<close> have been added since the last reset (the class is not among the sources).
\<close>

record 'v env =
  raises :: "'v event \<Rightarrow> nat \<Rightarrow> bool"
  have_tensorboard :: bool
  cuda_available :: bool
  date_str :: string
  made_dataloaders :: "nat option"
  made_model :: "(int \<times> bool) option"
  made_optimizer :: "unit option"
  test_summaries :: "int \<Rightarrow> 'v summaries"
  batch_metrics :: "int \<Rightarrow> 'v summaries"
  summarize :: "'v summaries list \<Rightarrow> 'v summaries"

text \<open>
  The state: the attributes of the experiment \<open>e\<close> (an attribute that may be \<open>None\<close> is an
  option; \<open>e.args\<close> is dereferenced by the first statement of the constructor and is
  never \<open>None\<close> here), the two fields of the model object the driver depends on
  (\<open>global_step\<close>, and \<open>training\<close>, the flag that \<open>train()\<close> sets and \<open>eval()\<close> clears), the
  attributes of the \<open>Trainer\<close>, the local variables of \<open>run\<close>, and the trace.
\<close>

record 'v state =
  args :: arguments
  run_description :: "string option"
  max_epochs :: int
  device :: "string option"
  dataloaders :: "nat option"
  model :: "unit option"
  optimizer :: "unit option"
  global_step :: int
  training :: bool
  train_history :: "'v history"
  test_history :: "'v history"
  img_folder :: string
  checkpoint_folder :: string
  log_path :: string
  tb_writer :: "string option"
  train_summarizers :: "'v summaries list"
  progress :: "nat option"
  trace :: "'v event list"

subsection \<open>Statements\<close>

type_synonym 'v stmt = "'v state \<Rightarrow> error option \<times> 'v state"

definition skip :: "'v stmt" where
  "skip s = (None, s)"

definition raise :: "error \<Rightarrow> 'v stmt" where
  "raise err s = (Some err, s)"

definition assign :: "('v state \<Rightarrow> 'v state) \<Rightarrow> 'v stmt" where
  "assign f s = (None, f s)"

text \<open>A call on a collaborator: recorded in the trace, and raising when the environment says so.\<close>

definition call :: "'v env \<Rightarrow> 'v event \<Rightarrow> 'v stmt" where
  "call env ev s =
     (if raises env ev (length (trace s)) then Some Raised else None,
      s\<lparr>trace := trace s @ [ev]\<rparr>)"

text \<open>A sequence of statements; an exception leaves it at once.\<close>

fun exec :: "'v stmt list \<Rightarrow> 'v stmt" where
  "exec [] s = (None, s)"
| "exec (c # cs) s =
     (case c s of
        (None, s') \<Rightarrow> exec cs s'
      | (Some err, s') \<Rightarrow> (Some err, s'))"

text \<open>A statement that reads the state it is executed in.\<close>

definition read_state :: "('v state \<Rightarrow> 'v stmt) \<Rightarrow> 'v stmt" where
  "read_state f s = f s s"

text \<open>
  \<open>if a % b == 0: c\<close>. Python's \<open>%\<close> on integers raises \<open>ZeroDivisionError\<close> for a zero
  divisor and otherwise takes the sign of the divisor, as \<open>mod\<close> on \<open>int\<close> does.
\<close>

definition if_mod_zero :: "int \<Rightarrow> int \<Rightarrow> 'v stmt \<Rightarrow> 'v stmt" where
  "if_mod_zero a b c =
     (if b = 0 then raise ZeroDivisionError
      else if a mod b = 0 then c
      else skip)"

text \<open>\<open>os.path.join\<close> of two components (posixpath).\<close>

definition path_join :: "string \<Rightarrow> string \<Rightarrow> string" where
  "path_join a b =
     (if b \<noteq> [] \<and> hd b = CHR ''/'' then b
      else if a = [] \<or> last a = CHR ''/'' then a @ b
      else a @ ''/'' @ b)"

subsection \<open>The evaluation pass: \<open>Trainer._test\<close> (lines 167 to 198)\<close>

definition test :: "'v env \<Rightarrow> int \<Rightarrow> 'v stmt" where
  "test env epoch = read_state (\<lambda>s0.
     let step = global_step s0;
         summaries = test_summaries env step
     in exec [
       call env ModelEval,
       assign (\<lambda>s. s\<lparr>training := False\<rparr>),
       call env TestProcedure,
       read_state (\<lambda>s. call env (AdditionalTesting (img_folder s))),
       call env (PrintTestLog summaries step epoch),
       assign (\<lambda>s. s\<lparr>test_history := history_add summaries step (test_history s)\<rparr>),
       read_state (\<lambda>s.
         if \<not> dry_run (args s) then exec [
           (case tb_writer s of
              None \<Rightarrow> skip
            | Some w \<Rightarrow>
                exec (map (\<lambda>(k, v). call env (AddScalar (''validation_'' @ k) v step))
                        summaries)),
           read_state (\<lambda>s. call env
             (WriteFile (log_path s) (PickledHistory (get_dict (test_history s)))))]
         else skip),
       call env ModelTrain,
       assign (\<lambda>s. s\<lparr>training := True\<rparr>)])"

subsection \<open>The training loop: \<open>Trainer.run\<close> (lines 90 to 165)\<close>

text \<open>Lines 142 to 159: the body of \<open>if (step + 1) % e.args.log_interval == 0\<close>.\<close>

definition train_log :: "'v env \<Rightarrow> int \<Rightarrow> int \<Rightarrow> 'v stmt" where
  "train_log env epoch step = read_state (\<lambda>s0.
     let summaries = summarize env (train_summarizers s0)
     in exec [
       call env SummarizerGetAll,
       assign (\<lambda>s. s\<lparr>train_summarizers := []\<rparr>),
       call env (PrintTrainLog (step + 1) epoch summaries),
       assign (\<lambda>s. s\<lparr>train_history := history_add summaries step (train_history s)\<rparr>),
       read_state (\<lambda>s.
         if \<not> dry_run (args s) then exec [
           read_state (\<lambda>s. call env
             (WriteFile (log_path s) (PickledHistory (get_dict (train_history s))))),
           (case tb_writer s of
              None \<Rightarrow> skip
            | Some w \<Rightarrow>
                exec (map (\<lambda>(k, v). call env (AddScalar (''train_'' @ k) v step))
                        summaries))]
         else skip)])"

text \<open>
  Lines 107 to 119: the body of \<open>if step % e.args.test_log_interval == 0\<close>, with its
  condition. \<open>step > 0 and step % e.args.checkpoint_interval == 0\<close> evaluates its second
  operand only when the first holds.
\<close>

definition test_and_checkpoint :: "'v env \<Rightarrow> int \<Rightarrow> int \<Rightarrow> 'v stmt" where
  "test_and_checkpoint env epoch step = read_state (\<lambda>s.
     if_mod_zero step (test_log_interval (args s)) (exec [
       test env epoch,
       (if step > 0
        then read_state (\<lambda>s. if_mod_zero step (checkpoint_interval (args s))
               (call env (ModelCheckpoint (checkpoint_folder s) step)))
        else skip),
       read_state (\<lambda>s. call env (Tqdm (test_log_interval (args s)))),
       assign (\<lambda>s. s\<lparr>progress := Some 0\<rparr>)]))"

text \<open>
  Lines 121 to 165: the rest of the body of the inner loop, where \<open>step\<close> is the value
  read at line 106.
\<close>

definition optimize_and_log :: "'v env \<Rightarrow> int \<Rightarrow> int \<Rightarrow> 'v stmt" where
  "optimize_and_log env epoch step = exec [
     read_state (\<lambda>s. if optimizer s = None then raise AttributeError else call env ZeroGrad),
     call env ForwardPass,
     call env Backward,
     call env GetMetricsDict,
     call env (SummarizerAdd (batch_metrics env step)),
     assign (\<lambda>s. s\<lparr>train_summarizers := train_summarizers s @ [batch_metrics env step]\<rparr>),
     read_state (\<lambda>s. case progress s of
                        None \<Rightarrow> raise AttributeError
                      | Some n \<Rightarrow> exec [call env ProgressUpdate,
                                        assign (\<lambda>s. s\<lparr>progress := Some (n + 1)\<rparr>)]),
     read_state (\<lambda>s. if_mod_zero (step + 1) (test_log_interval (args s))
       (read_state (\<lambda>s. if progress s \<noteq> None then call env ProgressClose else skip))),
     read_state (\<lambda>s. if_mod_zero (step + 1) (log_interval (args s))
       (train_log env epoch step)),
     call env OptimizerStep,
     call env IncrementGlobalStep,
     assign (\<lambda>s. s\<lparr>global_step := global_step s + 1\<rparr>)]"

text \<open>Lines 106 to 165: the body of the inner loop, one training batch.\<close>

definition train_step :: "'v env \<Rightarrow> int \<Rightarrow> 'v stmt" where
  "train_step env epoch = read_state (\<lambda>s0.
     let step = global_step s0
     in exec [
       test_and_checkpoint env epoch step,
       optimize_and_log env epoch step])"

text \<open>
  Lines 90 to 104: the set-up and the two nested \<open>for\<close> loops; \<open>range(1, e.max_epochs + 1)\<close>
  is \<open>[1..max_epochs]\<close>, and the training loader yields the same number of batches in
  every epoch.
\<close>

definition run :: "'v env \<Rightarrow> 'v stmt" where
  "run env = read_state (\<lambda>s0.
     case dataloaders s0 of
       None \<Rightarrow> raise AttributeError
     | Some train_loader \<Rightarrow> exec [
         assign (\<lambda>s. s\<lparr>train_summarizers := [], progress := None\<rparr>),
         read_state (\<lambda>s. if model s = None then raise AttributeError else call env ModelTrain),
         assign (\<lambda>s. s\<lparr>training := True\<rparr>),
         read_state (\<lambda>s.
           exec (map (\<lambda>epoch. exec (replicate train_loader (train_step env epoch)))
                   [1..max_epochs s]))])"

subsection \<open>The constructor: \<open>Trainer.__init__\<close> (lines 26 to 87)\<close>

text \<open>
  Lines 201 to 212: \<open>_check_experiment\<close>. Each attribute is kept as \<open>None\<close> or \<open>Some ()\<close>,
  its content erased; \<open>e.args\<close> is never \<open>None\<close> (see the state).
\<close>

definition attributes :: "'v state \<Rightarrow> bool \<Rightarrow> unit option list" where
  "attributes e opt =
     [map_option (\<lambda>_. ()) (device e),
      map_option (\<lambda>_. ()) (dataloaders e),
      model e,
      Some (),
      map_option (\<lambda>_. ()) (run_description e)]
     @ (if opt then [optimizer e] else [])"

definition check_experiment :: "bool \<Rightarrow> 'v stmt" where
  "check_experiment opt = read_state (\<lambda>e.
     if None \<in> set (attributes e opt) then raise (AssertionError 212) else skip)"

text \<open>Lines 39 to 40: the device is \<open>cuda\<close> when it is allowed and available.\<close>

definition pick_device :: "'v env \<Rightarrow> arguments \<Rightarrow> string" where
  "pick_device env a = (if \<not> no_cuda a \<and> cuda_available env then ''cuda'' else ''cpu'')"

text \<open>Lines 49 to 66: the folders of the run, and the configuration file.\<close>

definition create_folders :: "'v env \<Rightarrow> arguments \<Rightarrow> string \<Rightarrow> 'v stmt" where
  "create_folders env a description =
     (let folder_str = date_str env @ ''_'' @ description;
          result_folder = path_join ''results'' folder_str;
          tboard_folder = path_join ''tensorboard_logs'' folder_str
      in exec [
        assign (\<lambda>s. s\<lparr>img_folder := path_join result_folder ''imgs'',
                        checkpoint_folder := path_join ''checkpoints'' folder_str,
                        log_path := path_join result_folder ''log.pkl'',
                        tb_writer := None\<rparr>),
        (if \<not> dry_run a then exec [
           call env (MakeDirs result_folder),
           read_state (\<lambda>s. call env (MakeDirs (img_folder s))),
           read_state (\<lambda>s. call env (MakeDirs (checkpoint_folder s))),
           (if have_tensorboard env then exec [
              call env (MakeDirs tboard_folder),
              call env (SummaryWriter tboard_folder),
              assign (\<lambda>s. s\<lparr>tb_writer := Some tboard_folder\<rparr>)]
            else skip),
           read_state (\<lambda>s. call env
             (WriteFile (path_join (checkpoint_folder s) ''config.pkl'') (PickledArgs a)))]
         else skip)])"

definition init :: "'v env \<Rightarrow> bool \<Rightarrow> 'v stmt" where
  "init env create_optimizer = read_state (\<lambda>s0.
     let a = args s0
     in exec [
       (if test_log_interval a = 0 then raise ZeroDivisionError
        else if checkpoint_interval a mod test_log_interval a = 0 then skip
        else raise (AssertionError 29)),
       assign (\<lambda>s. s\<lparr>train_history := [], test_history := []\<rparr>),
       call env (SetRndSeed (seed a)),
       assign (\<lambda>s. s\<lparr>device := Some (pick_device env a)\<rparr>),
       read_state (\<lambda>s. case run_description s of
                          None \<Rightarrow> raise TypeError
                        | Some description \<Rightarrow> create_folders env a description),
       call env MakeAndSetDatamanager,
       assign (\<lambda>s. s\<lparr>dataloaders := made_dataloaders env\<rparr>),
       read_state (\<lambda>s. if dataloaders s = None then raise AttributeError else skip),
       call env MakeAndSetModel,
       assign (\<lambda>s. case made_model env of
                      None \<Rightarrow> s\<lparr>model := None\<rparr>
                    | Some (k, t) \<Rightarrow> s\<lparr>model := Some (), global_step := k, training := t\<rparr>),
       call env PrintNumParams,
       (if create_optimizer
        then exec [call env MakeAndSetOptimizer,
                   assign (\<lambda>s. s\<lparr>optimizer := made_optimizer env\<rparr>)]
        else skip),
       check_experiment create_optimizer])"

section \<open>Observations on traces and states\<close>

text \<open>
  When a list of calls is made one after the other, starting when \<open>n\<close> calls have been made:
  the calls up to and including the first that raises, or \<open>None\<close> when none does.
\<close>

fun raising_prefix :: "'v env \<Rightarrow> 'v event list \<Rightarrow> nat \<Rightarrow> 'v event list option" where
  "raising_prefix env [] n = None"
| "raising_prefix env (ev # evs) n =
     (if raises env ev n then Some [ev]
      else map_option (\<lambda>p. ev # p) (raising_prefix env evs (Suc n)))"

text \<open>The six per-step hooks of one training iteration, and the order they are expected in.\<close>

fun step_hook :: "'v event \<Rightarrow> bool" where
  "step_hook ZeroGrad = True"
| "step_hook ForwardPass = True"
| "step_hook Backward = True"
| "step_hook (SummarizerAdd d) = True"
| "step_hook OptimizerStep = True"
| "step_hook IncrementGlobalStep = True"
| "step_hook ev = False"

definition step_hooks :: "'v env \<Rightarrow> int \<Rightarrow> 'v event list" where
  "step_hooks env step =
     [ZeroGrad, ForwardPass, Backward, SummarizerAdd (batch_metrics env step),
      OptimizerStep, IncrementGlobalStep]"

text \<open>The steps at which the checkpoint hook was called, in the order of the calls.\<close>

fun checkpoint_step :: "'v event \<Rightarrow> int list" where
  "checkpoint_step (ModelCheckpoint folder k) = [k]"
| "checkpoint_step ev = []"

definition checkpoint_steps :: "'v event list \<Rightarrow> int list" where
  "checkpoint_steps evs = concat (map checkpoint_step evs)"

text \<open>The condition under which lines 107 to 116 reach the checkpoint hook at a step.\<close>

definition checkpoint_due :: "arguments \<Rightarrow> int \<Rightarrow> bool" where
  "checkpoint_due a step \<longleftrightarrow>
     test_log_interval a \<noteq> 0 \<and> step mod test_log_interval a = 0 \<and> 0 < step \<and>
     checkpoint_interval a \<noteq> 0 \<and> step mod checkpoint_interval a = 0"

text \<open>The steps among \<open>g, g + 1, ..., g + n - 1\<close> at which a checkpoint is due.\<close>

definition due_steps :: "arguments \<Rightarrow> int \<Rightarrow> nat \<Rightarrow> int list" where
  "due_steps a g n = filter (checkpoint_due a) (map (\<lambda>i. g + int i) [0..<n])"

text \<open>The attributes that \<open>run\<close> only reads.\<close>

definition static :: "'v state \<Rightarrow>
   arguments \<times> string option \<times> int \<times> string option \<times> nat option \<times> unit option \<times> unit option
   \<times> string \<times> string \<times> string \<times> string option" where
  "static s = (args s, run_description s, max_epochs s, device s, dataloaders s, model s,
     optimizer s, img_folder s, checkpoint_folder s, log_path s, tb_writer s)"

text \<open>
  \<open>advanced s n s'\<close>: the state \<open>s'\<close> is what \<open>n\<close> completed training batches make of \<open>s\<close>, as
  far as the step counter and the checkpoint calls go.
\<close>

definition advanced :: "'v state \<Rightarrow> nat \<Rightarrow> 'v state \<Rightarrow> bool" where
  "advanced s n s' \<longleftrightarrow>
     static s' = static s \<and> global_step s' = global_step s + int n \<and>
     (\<exists>new. trace s' = trace s @ new \<and>
        checkpoint_steps new = due_steps (args s) (global_step s) n)"

text \<open>\<open>due_only s s'\<close>: between \<open>s\<close> and \<open>s'\<close> the checkpoint hook was called only when due.\<close>

definition due_only :: "'v state \<Rightarrow> 'v state \<Rightarrow> bool" where
  "due_only s s' \<longleftrightarrow>
     static s' = static s \<and>
     (\<exists>new. trace s' = trace s @ new \<and>
        list_all (checkpoint_due (args s)) (checkpoint_steps new))"

text \<open>
  The calls of a construction that reaches its last statement, in order: what lines 49 to
  66 do to the file system, and the whole sequence.
\<close>

definition folder_events :: "'v env \<Rightarrow> arguments \<Rightarrow> string \<Rightarrow> 'v event list" where
  "folder_events env a description =
     (let folder_str = date_str env @ ''_'' @ description;
          result_folder = path_join ''results'' folder_str;
          checkpoint_folder = path_join ''checkpoints'' folder_str;
          tboard_folder = path_join ''tensorboard_logs'' folder_str
      in if dry_run a then []
         else [MakeDirs result_folder,
               MakeDirs (path_join result_folder ''imgs''),
               MakeDirs checkpoint_folder]
              @ (if have_tensorboard env
                 then [MakeDirs tboard_folder, SummaryWriter tboard_folder] else [])
              @ [WriteFile (path_join checkpoint_folder ''config.pkl'') (PickledArgs a)])"

definition construction_events ::
    "'v env \<Rightarrow> bool \<Rightarrow> arguments \<Rightarrow> string \<Rightarrow> 'v event list" where
  "construction_events env create_optimizer a description =
     [SetRndSeed (seed a)]
     @ folder_events env a description
     @ [MakeAndSetDatamanager, MakeAndSetModel, PrintNumParams]
     @ (if create_optimizer then [MakeAndSetOptimizer] else [])"

text \<open>
  The histories written to a path, in the order of the writes; the steps a serialised
  history holds for a metric; \<open>covers d' d\<close>: for every metric of \<open>d\<close>, the steps of \<open>d'\<close> are a
  superset of those of \<open>d\<close>; \<open>growing\<close>: every snapshot covers the one before it.
\<close>

fun log_snapshot :: "string \<Rightarrow> 'v event \<Rightarrow> 'v history_dict list" where
  "log_snapshot path (WriteFile p (PickledHistory d)) = (if p = path then [d] else [])"
| "log_snapshot path ev = []"

definition log_snapshots :: "string \<Rightarrow> 'v event list \<Rightarrow> 'v history_dict list" where
  "log_snapshots path evs = concat (map (log_snapshot path) evs)"

definition steps_of :: "'v history_dict \<Rightarrow> string \<Rightarrow> int list" where
  "steps_of d k = (case map_of d k of None \<Rightarrow> [] | Some entries \<Rightarrow> map fst entries)"

definition covers :: "'v history_dict \<Rightarrow> 'v history_dict \<Rightarrow> bool" where
  "covers d' d \<longleftrightarrow>
     list_all (\<lambda>k. list_all (\<lambda>step. step \<in> set (steps_of d' k)) (steps_of d k)) (map fst d)"

fun growing :: "'v history_dict list \<Rightarrow> bool" where
  "growing (d # d' # ds) \<longleftrightarrow> covers d' d \<and> growing (d' # ds)"
| "growing ds \<longleftrightarrow> True"

subsection \<open>A concrete experiment\<close>

text \<open>
  An experiment whose collaborators never raise: one epoch of three batches, a test every
  step, a training log every second step, a checkpoint every second step, and one metric.
\<close>

definition example_args :: arguments where
  "example_args = \<lparr>checkpoint_interval = 2, test_log_interval = 1, log_interval = 2,
     seed = 0, no_cuda = True, dry_run = False\<rparr>"

definition example_env :: "int env" where
  "example_env = \<lparr>raises = (\<lambda>ev n. False), have_tensorboard = False, cuda_available = False,
     date_str = ''d'', made_dataloaders = Some 3, made_model = Some (0, True),
     made_optimizer = Some (),
     test_summaries = (\<lambda>k. [(''loss'', 1)]), batch_metrics = (\<lambda>k. [(''loss'', 2)]),
     summarize = (\<lambda>ds. if ds = [] then [] else last ds)\<rparr>"

definition example_experiment :: "int state" where
  "example_experiment = \<lparr>args = example_args, run_description = Some ''r'', max_epochs = 1,
     device = None, dataloaders = None, model = None, optimizer = None, global_step = 0,
     training = True, train_history = [], test_history = [], img_folder = [],
     checkpoint_folder = [], log_path = [], tb_writer = None, train_summarizers = [],
     progress = None, trace = []\<rparr>"

text \<open>The driver built on the example, ready to run.\<close>

definition example_trainer :: "int state" where
  "example_trainer = snd (init example_env True example_experiment)"

text \<open>The same experiment in dry-run mode, and the driver built on it.\<close>

definition dry_experiment :: "int state" where
  "dry_experiment = example_experiment\<lparr>args := example_args\<lparr>dry_run := True\<rparr>\<rparr>"

definition dry_trainer :: "int state" where
  "dry_trainer = snd (init example_env True dry_experiment)"

text \<open>The example with \<open>checkpoint_interval = 3\<close> and \<open>test_log_interval = 2\<close>.\<close>

definition indivisible_experiment :: "int state" where
  "indivisible_experiment =
     example_experiment\<lparr>args := example_args\<lparr>checkpoint_interval := 3,
                                              test_log_interval := 2\<rparr>\<rparr>"

text \<open>
  The example resumed from a checkpoint taken at step 3, with a test every second step:
  the model that \<open>make_and_set_model\<close> builds has \<open>global_step = 3\<close>.
\<close>

definition resumed_env :: "int env" where
  "resumed_env = example_env\<lparr>made_model := Some (3, True)\<rparr>"

definition resumed_trainer :: "int state" where
  "resumed_trainer = snd (init resumed_env True
     (example_experiment\<lparr>args := example_args\<lparr>test_log_interval := 2\<rparr>\<rparr>))"

text \<open>
  An optimizer hook that leaves \<open>e.optimizer\<close> unset (every other attribute is set, so each
  statement before the completeness check returns), once without and once with
  tensorboard installed; and a test procedure that raises.
\<close>

definition no_optimizer_env :: "int env" where
  "no_optimizer_env = example_env\<lparr>made_optimizer := None\<rparr>"

definition no_optimizer_tensorboard_env :: "int env" where
  "no_optimizer_tensorboard_env =
     example_env\<lparr>made_optimizer := None, have_tensorboard := True\<rparr>"

definition failing_test_env :: "int env" where
  "failing_test_env = example_env\<lparr>raises := (\<lambda>ev n. ev = TestProcedure)\<rparr>"

section \<open>Executing statements\<close>

lemma exec_append:
  "exec (cs @ ds) s =
     (case exec cs s of (None, s') \<Rightarrow> exec ds s' | (Some err, s') \<Rightarrow> (Some err, s'))"
  by (induction cs arbitrary: s) (auto split: prod.splits option.splits)

lemma exec_call: "exec (call env ev # cs) s =
   (if raises env ev (length (trace s)) then (Some Raised, s\<lparr>trace := trace s @ [ev]\<rparr>)
    else exec cs (s\<lparr>trace := trace s @ [ev]\<rparr>))"
  by (simp add: call_def)

lemma exec_assign: "exec (assign f # cs) s = exec cs (f s)"
  by (simp add: assign_def)

lemma exec_skip: "exec (skip # cs) s = exec cs s"
  by (simp add: skip_def)

lemma exec_raise: "exec (raise err # cs) s = (Some err, s)"
  by (simp add: raise_def)

lemma exec_exec: "exec (exec cs # ds) s = exec (cs @ ds) s"
  by (simp add: exec_append)

lemma exec_read_state: "exec (read_state f # cs) s = exec (f s # cs) s"
  by (simp add: read_state_def)

lemma exec_if:
  "exec ((if b then c else d) # cs) s = (if b then exec (c # cs) s else exec (d # cs) s)"
  by simp

lemma exec_if_mod_zero: "exec (if_mod_zero a b c # cs) s =
   (if b = 0 then (Some ZeroDivisionError, s)
    else if a mod b = 0 then exec (c # cs) s else exec cs s)"
  by (simp add: if_mod_zero_def raise_def skip_def)

lemma exec_case_option: "exec ((case x of None \<Rightarrow> c | Some w \<Rightarrow> d w) # cs) s =
   (case x of None \<Rightarrow> exec (c # cs) s | Some w \<Rightarrow> exec (d w # cs) s)"
  by (simp split: option.splits)

lemma exec_single: "c s = exec [c] s"
  by (simp split: prod.splits option.splits)

lemma exec_Cons_cases:
  assumes "exec (c # cs) s = (r, s')"
  obtains (fails) err where "c s = (Some err, s')" and "r = Some err"
    | (continues) s1 where "c s = (None, s1)" and "exec cs s1 = (r, s')"
  using assms by (auto split: prod.splits option.splits)

lemma exec_fails_first:
  assumes "fst (c s) \<noteq> None"
  shows "exec (c # cs) s = c s"
  using assms by (cases "c s") auto

lemma exec_block: "exec (c # cs) s =
   (case c s of (None, s1) \<Rightarrow> exec cs s1 | (Some err, s1) \<Rightarrow> (Some err, s1))"
  by simp

text \<open>
  From here on a sequence is executed statement by statement, by the equations above: one
  for each form of statement.
\<close>

declare exec.simps(2) [simp del]

lemmas exec_simps = exec_call exec_assign exec_skip exec_raise exec_exec exec_read_state exec_if
  exec_if_mod_zero exec_case_option

lemma map_call:
  "map (\<lambda>(k, v). call env (E k v)) xs = map (call env) (map (\<lambda>(k, v). E k v) xs)"
  by (induction xs) auto

lemma exec_calls: "exec (map (call env) evs @ cs) s =
   (case raising_prefix env evs (length (trace s)) of
      None \<Rightarrow> exec cs (s\<lparr>trace := trace s @ evs\<rparr>)
    | Some p \<Rightarrow> (Some Raised, s\<lparr>trace := trace s @ p\<rparr>))"
proof (induction evs arbitrary: s)
  case Nil
  then show ?case by simp
next
  case (Cons ev evs)
  show ?case
    by (simp add: exec_call Cons.IH split: option.splits)
qed

lemma exec_scalars: "exec (map (\<lambda>(k, v). call env (E k v)) xs @ cs) s =
   (case raising_prefix env (map (\<lambda>(k, v). E k v) xs) (length (trace s)) of
      None \<Rightarrow> exec cs (s\<lparr>trace := trace s @ map (\<lambda>(k, v). E k v) xs\<rparr>)
    | Some p \<Rightarrow> (Some Raised, s\<lparr>trace := trace s @ p\<rparr>))"
  by (simp only: map_call exec_calls)

lemma exec_scalars_last: "exec (map (\<lambda>(k, v). call env (E k v)) xs) s =
   (case raising_prefix env (map (\<lambda>(k, v). E k v) xs) (length (trace s)) of
      None \<Rightarrow> (None, s\<lparr>trace := trace s @ map (\<lambda>(k, v). E k v) xs\<rparr>)
    | Some p \<Rightarrow> (Some Raised, s\<lparr>trace := trace s @ p\<rparr>))"
  using exec_scalars [of env E xs "[]" s] by (simp split: option.splits)

lemma raising_prefix_subset: "raising_prefix env evs n = Some p \<Longrightarrow> set p \<subseteq> set evs"
proof (induction evs arbitrary: n p)
  case Nil
  then show ?case by simp
next
  case (Cons ev evs)
  show ?case
  proof (cases "raises env ev n")
    case True
    with Cons.prems show ?thesis by auto
  next
    case False
    with Cons.prems obtain q where q: "raising_prefix env evs (Suc n) = Some q"
      and p: "p = ev # q"
      by auto
    from Cons.IH [OF q] p show ?thesis by auto
  qed
qed

section \<open>The blocks of the training loop\<close>

lemma checkpoint_steps_Nil [simp]: "checkpoint_steps [] = []"
  by (simp add: checkpoint_steps_def)

lemma checkpoint_steps_Cons [simp]:
  "checkpoint_steps (ev # evs) = checkpoint_step ev @ checkpoint_steps evs"
  by (simp add: checkpoint_steps_def)

lemma checkpoint_steps_append [simp]:
  "checkpoint_steps (xs @ ys) = checkpoint_steps xs @ checkpoint_steps ys"
  by (simp add: checkpoint_steps_def)

lemma checkpoint_steps_mem:
  "k \<in> set (checkpoint_steps evs) \<longleftrightarrow> (\<exists>folder. ModelCheckpoint folder k \<in> set evs)"
proof (induction evs)
  case Nil
  then show ?case by simp
next
  case (Cons ev evs)
  then show ?case
    by (cases ev) auto
qed

text \<open>The calls on the tensorboard writer are neither step hooks nor checkpoints.\<close>

lemma quiet_scalars:
  assumes "raising_prefix env (map (\<lambda>(k, v). AddScalar (f k) v n) xs) m = Some p"
  shows "filter step_hook p = [] \<and> checkpoint_steps p = []"
proof -
  have "set p \<subseteq> set (map (\<lambda>(k, v). AddScalar (f k) v n) xs)"
    using assms by (rule raising_prefix_subset)
  then have "\<forall>ev \<in> set p. \<not> step_hook ev \<and> checkpoint_step ev = []"
    by auto
  then show ?thesis
    by (induction p) auto
qed

lemma quiet_scalars_all:
  "filter step_hook (map (\<lambda>(k, v). AddScalar (f k) v n) xs) = [] \<and>
   checkpoint_steps (map (\<lambda>(k, v). AddScalar (f k) v n) xs) = []"
  by (induction xs) auto

text \<open>
  What the evaluation pass leaves alone, whether it returns or raises: it calls no step hook
  and no checkpoint, and changes only the mode of the model, the test history and the trace.
\<close>

lemma test_frame:
  assumes "test env epoch s = (r, s1)"
  shows "static s1 = static s \<and> global_step s1 = global_step s \<and> progress s1 = progress s \<and>
         train_summarizers s1 = train_summarizers s \<and> train_history s1 = train_history s \<and>
         (\<exists>new. trace s1 = trace s @ new \<and> filter step_hook new = [] \<and>
            checkpoint_steps new = [])"
proof -
  from assms have "exec [test env epoch] s = (r, s1)"
    by (simp add: exec_single [symmetric])
  then show ?thesis
    by (auto simp: test_def Let_def exec_simps exec_scalars static_def quiet_scalars_all
        dest: quiet_scalars split: if_splits option.splits)
qed

lemma train_log_frame:
  assumes "train_log env epoch step s = (r, s1)"
  shows "static s1 = static s \<and> global_step s1 = global_step s \<and> progress s1 = progress s \<and>
         training s1 = training s \<and> test_history s1 = test_history s \<and>
         (\<exists>new. trace s1 = trace s @ new \<and> filter step_hook new = [] \<and>
            checkpoint_steps new = [])"
proof -
  from assms have "exec [train_log env epoch step] s = (r, s1)"
    by (simp add: exec_single [symmetric])
  then show ?thesis
    by (auto simp: train_log_def Let_def exec_simps exec_scalars exec_scalars_last static_def
          quiet_scalars_all
        dest: quiet_scalars split: if_splits option.splits)
qed

text \<open>
  Lines 107 to 119: the checkpoint hook is called at most once, with the current step, and
  only when a checkpoint is due; when the block returns, it was called exactly when due.
\<close>

lemma test_and_checkpoint_frame:
  assumes "test_and_checkpoint env epoch step s = (r, s1)"
  shows "static s1 = static s \<and> global_step s1 = global_step s \<and>
         train_summarizers s1 = train_summarizers s \<and> train_history s1 = train_history s \<and>
         (\<exists>new. trace s1 = trace s @ new \<and> filter step_hook new = [] \<and>
            (checkpoint_steps new = [] \<or>
             checkpoint_steps new = [step] \<and> checkpoint_due (args s) step) \<and>
            (r = None \<longrightarrow> test_log_interval (args s) \<noteq> 0 \<and>
               (checkpoint_steps new = [step]) = checkpoint_due (args s) step \<and>
               progress s1 = (if step mod test_log_interval (args s) = 0 then Some 0
                              else progress s)))"
proof -
  from assms have "exec [test_and_checkpoint env epoch step] s = (r, s1)"
    by (simp add: exec_single [symmetric])
  then show ?thesis
    by (auto simp: test_and_checkpoint_def exec_simps exec_block [of "test env epoch"]
          static_def checkpoint_due_def
        dest!: test_frame split: if_splits option.splits prod.splits)
qed

text \<open>
  Lines 121 to 165: the step hooks are called in their order, as far as the block gets; the
  step counter moves by one when the block returns, and not at all when it raises.
\<close>

lemma optimize_and_log_effect:
  assumes "optimize_and_log env epoch step s = (r, s1)"
  shows "static s1 = static s \<and>
         (\<exists>new. trace s1 = trace s @ new \<and>
            prefix (filter step_hook new) (step_hooks env step) \<and>
            checkpoint_steps new = [] \<and>
            (r \<noteq> None \<longrightarrow> global_step s1 = global_step s) \<and>
            (r = None \<longrightarrow>
               filter step_hook new = step_hooks env step \<and>
               global_step s1 = global_step s + 1))"
  using assms
  by (auto simp: optimize_and_log_def exec_simps exec_block [of "train_log env epoch step"]
        static_def step_hooks_def
      dest!: train_log_frame
      split: if_splits option.splits prod.splits)

text \<open>One training batch.\<close>

lemma train_step_effect:
  assumes "train_step env epoch s = (r, s')"
  shows "static s' = static s \<and>
         (\<exists>new. trace s' = trace s @ new \<and>
            prefix (filter step_hook new) (step_hooks env (global_step s)) \<and>
            (checkpoint_steps new = [] \<or>
             checkpoint_steps new = [global_step s] \<and>
             checkpoint_due (args s) (global_step s)) \<and>
            (r \<noteq> None \<longrightarrow> global_step s' = global_step s) \<and>
            (r = None \<longrightarrow>
               filter step_hook new = step_hooks env (global_step s) \<and>
               global_step s' = global_step s + 1 \<and>
               test_log_interval (args s) \<noteq> 0 \<and>
               (checkpoint_steps new = [global_step s])
                 = checkpoint_due (args s) (global_step s)))"
proof -
  let ?g = "global_step s"
  from assms have
    "exec [test_and_checkpoint env epoch ?g, optimize_and_log env epoch ?g] s = (r, s')"
    by (simp add: train_step_def read_state_def Let_def)
  then show ?thesis
  proof (cases rule: exec_Cons_cases)
    case (fails err)
    from test_and_checkpoint_frame [OF fails(1)] fails(2) show ?thesis
      by auto
  next
    case (continues s1)
    note a = test_and_checkpoint_frame [OF continues(1)]
    from continues(2) have "optimize_and_log env epoch ?g s1 = (r, s')"
      by (auto elim!: exec_Cons_cases)
    note b = optimize_and_log_effect [OF this]
    from a obtain new1 where n1: "trace s1 = trace s @ new1" "filter step_hook new1 = []"
      "checkpoint_steps new1 = [] \<or>
       checkpoint_steps new1 = [?g] \<and> checkpoint_due (args s) ?g"
      "test_log_interval (args s) \<noteq> 0"
      "(checkpoint_steps new1 = [?g]) = checkpoint_due (args s) ?g"
      and g1: "global_step s1 = ?g" and st1: "static s1 = static s"
      by auto
    from b obtain new2 where n2: "trace s' = trace s1 @ new2"
      "prefix (filter step_hook new2) (step_hooks env ?g)" "checkpoint_steps new2 = []"
      "r \<noteq> None \<longrightarrow> global_step s' = global_step s1"
      "r = None \<longrightarrow>
         filter step_hook new2 = step_hooks env ?g \<and> global_step s' = global_step s1 + 1"
      and st2: "static s' = static s1"
      by auto
    have "trace s' = trace s @ (new1 @ new2)"
      using n1(1) n2(1) by simp
    moreover have "filter step_hook (new1 @ new2) = filter step_hook new2"
      using n1(2) by simp
    moreover have "checkpoint_steps (new1 @ new2) = checkpoint_steps new1"
      using n2(3) by simp
    ultimately show ?thesis
      using n1 n2 g1 st1 st2 by (intro conjI exI [of _ "new1 @ new2"]) auto
  qed
qed

section \<open>The loops\<close>

lemma due_steps_add:
  "due_steps a g (n + m) = due_steps a g n @ due_steps a (g + int n) m"
proof -
  have "[0..<n + m] = [0..<n] @ [n..<n + m]"
    by (rule upt_add_eq_append) simp
  also have "[n..<n + m] = map (\<lambda>i. i + n) [0..<m]"
    by (simp only: map_add_upt add.commute)
  finally show ?thesis
    by (simp add: due_steps_def comp_def ac_simps)
qed

lemma due_steps_mem:
  "k \<in> set (due_steps a g n) \<longleftrightarrow> checkpoint_due a k \<and> g \<le> k \<and> k < g + int n"
proof -
  have "k \<in> (\<lambda>i. g + int i) ` {0..<n} \<longleftrightarrow> g \<le> k \<and> k < g + int n"
  proof
    assume "k \<in> (\<lambda>i. g + int i) ` {0..<n}"
    then show "g \<le> k \<and> k < g + int n" by auto
  next
    assume "g \<le> k \<and> k < g + int n"
    then have "k = g + int (nat (k - g))" and "nat (k - g) < n"
      by auto
    then show "k \<in> (\<lambda>i. g + int i) ` {0..<n}"
      by (metis atLeastLessThan_iff image_eqI zero_le)
  qed
  then show ?thesis
    by (auto simp: due_steps_def)
qed

text \<open>
  When \<open>checkpoint_interval\<close> is a non-zero multiple of \<open>test_log_interval\<close>, a checkpoint
  is due exactly at the positive multiples of \<open>checkpoint_interval\<close>.
\<close>

lemma checkpoint_due_dvd:
  assumes "checkpoint_interval a \<noteq> 0" and "test_log_interval a dvd checkpoint_interval a"
  shows "checkpoint_due a k \<longleftrightarrow> 0 < k \<and> k mod checkpoint_interval a = 0"
proof -
  from assms have T: "test_log_interval a \<noteq> 0"
    by auto
  have "k mod test_log_interval a = 0" if "k mod checkpoint_interval a = 0"
  proof -
    from that have "checkpoint_interval a dvd k"
      by (simp add: dvd_eq_mod_eq_0)
    with assms(2) have "test_log_interval a dvd k"
      by (rule dvd_trans)
    then show ?thesis
      by (simp add: dvd_eq_mod_eq_0)
  qed
  with assms(1) T show ?thesis
    by (auto simp: checkpoint_due_def)
qed

lemma advanced_refl: "advanced s 0 s"
  by (simp add: advanced_def due_steps_def)

lemma advanced_trans:
  assumes "advanced s n s1" and "advanced s1 m s2"
  shows "advanced s (n + m) s2"
proof -
  from assms(1) obtain new1 where 1: "static s1 = static s"
    "global_step s1 = global_step s + int n" "trace s1 = trace s @ new1"
    "checkpoint_steps new1 = due_steps (args s) (global_step s) n"
    by (auto simp: advanced_def)
  from assms(2) obtain new2 where 2: "static s2 = static s1"
    "global_step s2 = global_step s1 + int m" "trace s2 = trace s1 @ new2"
    "checkpoint_steps new2 = due_steps (args s1) (global_step s1) m"
    by (auto simp: advanced_def)
  from 1(1) have a: "args s1 = args s"
    by (simp add: static_def)
  have "trace s2 = trace s @ (new1 @ new2)"
    using 1(3) 2(3) by simp
  moreover have "checkpoint_steps (new1 @ new2) = due_steps (args s) (global_step s) (n + m)"
    using 1(2,4) 2(4) a by (simp add: due_steps_add)
  ultimately show ?thesis
    using 1(1,2) 2(1,2) unfolding advanced_def by (intro conjI exI [of _ "new1 @ new2"]) auto
qed

lemma train_step_advanced:
  assumes "train_step env epoch s = (None, s')"
  shows "advanced s 1 s'"
  using train_step_effect [OF assms]
  by (auto simp: advanced_def due_steps_def)

text \<open>The inner loop, when it completes.\<close>

lemma batches_advanced:
  "exec (replicate n (train_step env epoch)) s = (None, s') \<Longrightarrow> advanced s n s'"
proof (induction n arbitrary: s)
  case 0
  then show ?case by (simp add: advanced_refl)
next
  case (Suc n)
  from Suc.prems
  have "exec (train_step env epoch # replicate n (train_step env epoch)) s = (None, s')"
    by simp
  then obtain s1 where 1: "train_step env epoch s = (None, s1)"
    and 2: "exec (replicate n (train_step env epoch)) s1 = (None, s')"
    by (auto elim!: exec_Cons_cases)
  from advanced_trans [OF train_step_advanced [OF 1] Suc.IH [OF 2]] show ?case
    by simp
qed

text \<open>The outer loop, when it completes.\<close>

lemma epochs_advanced:
  "exec (map (\<lambda>epoch. exec (replicate n (train_step env epoch))) es) s = (None, s')
   \<Longrightarrow> advanced s (length es * n) s'"
proof (induction es arbitrary: s)
  case Nil
  then show ?case by (simp add: advanced_refl)
next
  case (Cons e es)
  from Cons.prems obtain s1 where 1: "exec (replicate n (train_step env e)) s = (None, s1)"
    and 2: "exec (map (\<lambda>epoch. exec (replicate n (train_step env epoch))) es) s1 = (None, s')"
    by (auto elim!: exec_Cons_cases)
  from advanced_trans [OF batches_advanced [OF 1] Cons.IH [OF 2]] show ?case
    by (simp add: add.commute)
qed

text \<open>A run that returns has completed \<open>max_epochs\<close> times the batches of the loader.\<close>

lemma run_advanced:
  assumes "run env s = (None, s')"
  shows "\<exists>n s1. dataloaders s = Some n \<and> trace s1 = trace s @ [ModelTrain] \<and>
           static s1 = static s \<and> global_step s1 = global_step s \<and>
           advanced s1 (nat (max_epochs s) * n) s'"
proof -
  from assms obtain n where n: "dataloaders s = Some n"
    by (cases "dataloaders s") (auto simp: run_def read_state_def raise_def)
  define s1 where "s1 = s\<lparr>train_summarizers := [], progress := None,
    trace := trace s @ [ModelTrain], training := True\<rparr>"
  from assms n have "exec (map (\<lambda>epoch. exec (replicate n (train_step env epoch)))
      [1..max_epochs s]) s1 = (None, s')"
    unfolding s1_def
    by (subst (asm) exec_single) (auto simp: run_def exec_simps split: if_splits)
  from epochs_advanced [OF this] have "advanced s1 (nat (max_epochs s) * n) s'"
    by simp
  moreover have "trace s1 = trace s @ [ModelTrain]" "static s1 = static s"
    "global_step s1 = global_step s"
    by (simp_all add: s1_def static_def)
  ultimately show ?thesis
    using n by blast
qed

text \<open>Whether the loops complete or raise, the checkpoint hook is called only when due.\<close>

lemma due_only_refl: "due_only s s"
  by (simp add: due_only_def)

lemma due_only_trans:
  assumes "due_only s s1" and "due_only s1 s2"
  shows "due_only s s2"
proof -
  from assms(1) obtain new1 where 1: "static s1 = static s" "trace s1 = trace s @ new1"
    "list_all (checkpoint_due (args s)) (checkpoint_steps new1)"
    by (auto simp: due_only_def)
  from assms(2) obtain new2 where 2: "static s2 = static s1" "trace s2 = trace s1 @ new2"
    "list_all (checkpoint_due (args s1)) (checkpoint_steps new2)"
    by (auto simp: due_only_def)
  from 1(1) have a: "args s1 = args s"
    by (simp add: static_def)
  have "trace s2 = trace s @ (new1 @ new2)"
    using 1(2) 2(2) by simp
  moreover have "list_all (checkpoint_due (args s)) (checkpoint_steps (new1 @ new2))"
    using 1(3) 2(3) a by simp
  ultimately show ?thesis
    using 1(1) 2(1) unfolding due_only_def by (intro conjI exI [of _ "new1 @ new2"]) auto
qed

lemma exec_due_only:
  assumes "exec cs s = (r, s')"
    and "\<And>c t r' t'. c \<in> set cs \<Longrightarrow> c t = (r', t') \<Longrightarrow> due_only t t'"
  shows "due_only s s'"
  using assms
proof (induction cs arbitrary: s)
  case Nil
  then show ?case by (simp add: due_only_refl)
next
  case (Cons c cs)
  from Cons.prems(1) show ?case
  proof (cases rule: exec_Cons_cases)
    case (fails err)
    then show ?thesis
      using Cons.prems(2) [of c s "Some err" s'] by simp
  next
    case (continues s1)
    have "due_only s s1"
      using Cons.prems(2) [of c s None s1] continues(1) by simp
    moreover have "due_only s1 s'"
    proof (rule Cons.IH [OF continues(2)])
      fix c' t r' t'
      assume "c' \<in> set cs" and "c' t = (r', t')"
      then show "due_only t t'"
        using Cons.prems(2) [of c' t r' t'] by simp
    qed
    ultimately show ?thesis
      by (rule due_only_trans)
  qed
qed

lemma train_step_due_only:
  assumes "train_step env epoch s = (r, s')"
  shows "due_only s s'"
  using train_step_effect [OF assms] by (auto simp: due_only_def)

lemma batches_due_only:
  assumes "exec (replicate n (train_step env epoch)) s = (r, s')"
  shows "due_only s s'"
  using assms by (rule exec_due_only) (auto intro: train_step_due_only)

lemma epochs_due_only:
  assumes "exec (map (\<lambda>epoch. exec (replicate n (train_step env epoch))) es) s = (r, s')"
  shows "due_only s s'"
  using assms by (rule exec_due_only) (auto intro: batches_due_only)

lemma run_due_only:
  assumes "run env s = (r, s')"
  shows "due_only s s'"
proof (cases "dataloaders s")
  case None
  with assms show ?thesis
    by (simp add: run_def read_state_def raise_def due_only_def)
next
  case (Some n)
  define s1 where "s1 = s\<lparr>train_summarizers := [], progress := None,
    trace := trace s @ [ModelTrain], training := True\<rparr>"
  have s1: "due_only s s1"
    by (simp add: due_only_def s1_def static_def)
  from assms Some consider
      (stop) "trace s' = trace s \<or> trace s' = trace s @ [ModelTrain]" "static s' = static s"
    | (loops) "exec (map (\<lambda>epoch. exec (replicate n (train_step env epoch)))
        [1..max_epochs s]) s1 = (r, s')"
    unfolding s1_def
    by (subst (asm) exec_single) (auto simp: run_def exec_simps static_def split: if_splits)
  then show ?thesis
  proof cases
    case stop
    then show ?thesis
      by (auto simp: due_only_def)
  next
    case loops
    from s1 epochs_due_only [OF loops] show ?thesis
      by (rule due_only_trans)
  qed
qed

text \<open>
  A first batch that finds no progress bar: when the step is not a multiple of
  \<open>test_log_interval\<close>, lines 107 to 119 are skipped, \<open>progress\<close> is still \<open>None\<close> at line
  135, and the batch raises before the step counter moves.
\<close>

lemma train_step_without_progress:
  assumes "progress s = None"
    and "test_log_interval (args s) = 0 \<or> global_step s mod test_log_interval (args s) \<noteq> 0"
  shows "fst (train_step env epoch s) \<noteq> None \<and>
         global_step (snd (train_step env epoch s)) = global_step s \<and>
         (test_log_interval (args s) \<noteq> 0 \<and> optimizer s \<noteq> None \<and>
          (\<forall>ev k. \<not> raises env ev k)
            \<longrightarrow> fst (train_step env epoch s) = Some AttributeError)"
  using assms
  apply (subst (1 2 3) exec_single)
  by (auto simp: train_step_def test_and_checkpoint_def optimize_and_log_def Let_def exec_simps
      split: if_splits option.splits)

lemma run_without_progress:
  assumes n: "dataloaders s = Some n" and pos: "0 < n" "1 \<le> max_epochs s"
    and T: "test_log_interval (args s) = 0 \<or>
            global_step s mod test_log_interval (args s) \<noteq> 0"
  shows "fst (run env s) \<noteq> None \<and>
         global_step (snd (run env s)) = global_step s \<and>
         (test_log_interval (args s) \<noteq> 0 \<and> model s \<noteq> None \<and> optimizer s \<noteq> None \<and>
          (\<forall>ev k. \<not> raises env ev k)
            \<longrightarrow> fst (run env s) = Some AttributeError)"
proof -
  define s1 where "s1 = s\<lparr>train_summarizers := [], progress := None,
    trace := trace s @ [ModelTrain], training := True\<rparr>"
  let ?body = "train_step env"
  have s1: "progress s1 = None" "args s1 = args s" "global_step s1 = global_step s"
    "optimizer s1 = optimizer s"
    by (simp_all add: s1_def)
  from pos obtain n' where n': "n = Suc n'"
    by (cases n) auto
  from pos have up: "[1..max_epochs s] = 1 # [2..max_epochs s]"
    by (simp add: upto_rec1)
  have fails: "fst (?body 1 s1) \<noteq> None"
    using train_step_without_progress [of s1 env 1] T s1 by simp
  have "exec (map (\<lambda>epoch. exec (replicate n (?body epoch))) [1..max_epochs s]) s1
        = exec (?body 1 # (replicate n' (?body 1)
             @ map (\<lambda>epoch. exec (replicate n (?body epoch))) [2..max_epochs s])) s1"
    by (simp add: up n' exec_exec)
  also have "\<dots> = ?body 1 s1"
    using fails by (rule exec_fails_first)
  finally have loops:
    "exec (map (\<lambda>epoch. exec (replicate n (?body epoch))) [1..max_epochs s]) s1 = ?body 1 s1" .
  have run_eq: "run env s =
    (if model s = None
     then (Some AttributeError, s\<lparr>train_summarizers := [], progress := None\<rparr>)
     else if raises env ModelTrain (length (trace s))
     then (Some Raised, s\<lparr>train_summarizers := [], progress := None,
             trace := trace s @ [ModelTrain]\<rparr>)
     else ?body 1 s1)"
    using n loops
    by (subst exec_single) (simp add: run_def exec_simps s1_def)
  show ?thesis
    using train_step_without_progress [of s1 env 1] T s1
    by (simp add: run_eq)
qed

section \<open>The constructor\<close>

lemma exec_check_experiment: "exec (check_experiment opt # cs) s =
   (if None \<in> set (attributes s opt) then (Some (AssertionError 212), s) else exec cs s)"
  by (simp add: check_experiment_def exec_read_state exec_if exec_raise exec_skip)

text \<open>Lines 49 to 66 raise only inside a call, and make their calls in order.\<close>

lemma create_folders_effect:
  assumes "create_folders env a d s = (r, s1)"
  shows "args s1 = args s \<and> run_description s1 = run_description s \<and> device s1 = device s \<and>
         dataloaders s1 = dataloaders s \<and> model s1 = model s \<and> optimizer s1 = optimizer s \<and>
         (r = None \<or> r = Some Raised) \<and>
         (\<exists>new. trace s1 = trace s @ new \<and> prefix new (folder_events env a d) \<and>
            (r = None \<longrightarrow> new = folder_events env a d))"
proof -
  from assms have ex: "exec [create_folders env a d] s = (r, s1)"
    by (simp add: exec_single [symmetric])
  then show ?thesis
    by (cases "dry_run a"; cases "have_tensorboard env";
        auto simp: create_folders_def folder_events_def Let_def exec_simps split: if_splits)
qed

text \<open>
  The interval check of line 29 comes first: when it fails, nothing else has happened.
\<close>

lemma init_rejects:
  assumes "\<not> test_log_interval (args s) dvd checkpoint_interval (args s)"
  shows "init env opt s =
    (Some (if test_log_interval (args s) = 0 then ZeroDivisionError else AssertionError 29), s)"
  using assms
  apply (subst exec_single)
  by (auto simp: init_def Let_def exec_simps dvd_eq_mod_eq_0)

text \<open>
  The calls of a construction are a prefix of \<open>construction_events\<close>, whatever its outcome,
  and all of them when it reaches the completeness check, which is then decided on the
  attributes as the setup hooks left them.
\<close>

lemma init_effect:
  assumes "init env opt s = (r, s')"
  shows "args s' = args s \<and>
         (\<exists>new. trace s' = trace s @ new \<and>
            (case run_description s of
               None \<Rightarrow>
                 prefix new [SetRndSeed (seed (args s))] \<and>
                 r \<noteq> None \<and> r \<noteq> Some (AssertionError 212)
             | Some d \<Rightarrow>
                 prefix new (construction_events env opt (args s) d) \<and>
                 (r = None \<or> r = Some (AssertionError 212) \<longrightarrow>
                    new = construction_events env opt (args s) d \<and>
                    dataloaders s' = made_dataloaders env \<and>
                    (r = None) = (None \<notin> set (attributes s' opt)))))"
proof -
  from assms have ex: "exec [init env opt] s = (r, s')"
    by (simp add: exec_single [symmetric])
  then show ?thesis
    by (cases opt;
        auto simp: init_def Let_def exec_simps exec_check_experiment
              exec_block [of "create_folders env (args s) d" for d]
              construction_events_def
            dest!: create_folders_effect
            split: if_splits option.splits prod.splits)
qed

section \<open>The claims\<close>

text \<open>
  C5. When \<open>checkpoint_interval\<close> is not an exact integer multiple of \<open>test_log_interval\<close>,
  constructing the driver raises an error, before anything else is done: the state, trace
  included, is as it was. The error is the \<open>AssertionError\<close> of line 29, or the
  \<open>ZeroDivisionError\<close> of the same line when \<open>test_log_interval\<close> is zero.
\<close>

theorem init_rejects_indivisible:
  assumes "\<not> test_log_interval (args s) dvd checkpoint_interval (args s)"
  shows "\<exists>err. init env create_optimizer s = (Some err, s) \<and>
           (err = ZeroDivisionError \<or> err = AssertionError 29)"
  using init_rejects [OF assms] by auto

theorem init_rejects_indivisible_witness:
  "\<not> test_log_interval (args indivisible_experiment)
       dvd checkpoint_interval (args indivisible_experiment) \<and>
   (\<exists>err. init example_env True indivisible_experiment = (Some err, indivisible_experiment))"
proof -
  have h: "\<not> test_log_interval (args indivisible_experiment)
       dvd checkpoint_interval (args indivisible_experiment)"
    by (simp add: indivisible_experiment_def example_args_def)
  from init_rejects_indivisible [OF h, of example_env True] h show ?thesis
    by blast
qed

text \<open>
  C10. The completeness check is the last statement of the constructor. When it fails (the
  \<open>AssertionError\<close> of line 212), some checked attribute is \<open>None\<close>, and every call of
  \<open>construction_events\<close> has been made before: outside dry-run mode the three folders have
  been created and \<open>config.pkl\<close> written, and no later call removes them.
\<close>

theorem check_failure_leaves_folders:
  assumes "init env create_optimizer s = (Some (AssertionError 212), s')"
  shows "None \<in> set (attributes s' create_optimizer) \<and>
         (\<exists>d. run_description s = Some d \<and>
            trace s' = trace s @ construction_events env create_optimizer (args s) d \<and>
            (\<not> dry_run (args s) \<longrightarrow>
               MakeDirs (path_join ''results'' (date_str env @ ''_'' @ d)) \<in> set (trace s') \<and>
               MakeDirs (path_join (path_join ''results'' (date_str env @ ''_'' @ d)) ''imgs'')
                 \<in> set (trace s') \<and>
               MakeDirs (path_join ''checkpoints'' (date_str env @ ''_'' @ d))
                 \<in> set (trace s') \<and>
               WriteFile (path_join (path_join ''checkpoints'' (date_str env @ ''_'' @ d))
                            ''config.pkl'') (PickledArgs (args s)) \<in> set (trace s')))"
proof -
  from init_effect [OF assms] obtain new where new: "trace s' = trace s @ new"
    and c: "case run_description s of
               None \<Rightarrow> False
             | Some d \<Rightarrow>
                 new = construction_events env create_optimizer (args s) d \<and>
                 None \<in> set (attributes s' create_optimizer)"
    by (auto split: option.splits)
  then obtain d where d: "run_description s = Some d"
    and ev: "new = construction_events env create_optimizer (args s) d"
    and none: "None \<in> set (attributes s' create_optimizer)"
    by (auto split: option.splits)
  from new ev have "trace s' = trace s @ construction_events env create_optimizer (args s) d"
    by simp
  then show ?thesis
    using d none by (auto simp: construction_events_def folder_events_def Let_def)
qed

theorem check_failure_leaves_folders_witness:
  "fst (init no_optimizer_env True example_experiment) = Some (AssertionError 212) \<and>
   MakeDirs ''results/d_r'' \<in> set (trace (snd (init no_optimizer_env True example_experiment))) \<and>
   MakeDirs ''checkpoints/d_r''
     \<in> set (trace (snd (init no_optimizer_env True example_experiment))) \<and>
   WriteFile ''checkpoints/d_r/config.pkl'' (PickledArgs example_args)
     \<in> set (trace (snd (init no_optimizer_env True example_experiment)))"
proof -
  let ?r = "init no_optimizer_env True example_experiment"
  have fails: "fst ?r = Some (AssertionError 212)"
    by code_simp
  then have run: "?r = (Some (AssertionError 212), snd ?r)"
    by (simp add: prod_eq_iff)
  have a: "args example_experiment = example_args"
    "run_description example_experiment = Some ''r''"
    by (simp_all add: example_experiment_def)
  have b: "\<not> dry_run example_args"
    by (simp add: example_args_def)
  have c: "date_str no_optimizer_env = ''d''"
    by (simp add: no_optimizer_env_def example_env_def)
  have p: "path_join ''results'' ''d_r'' = ''results/d_r''"
    "path_join ''checkpoints'' ''d_r'' = ''checkpoints/d_r''"
    "path_join ''checkpoints/d_r'' ''config.pkl'' = ''checkpoints/d_r/config.pkl''"
    by (simp_all add: path_join_def)
  from check_failure_leaves_folders [OF run]
  have "MakeDirs ''results/d_r'' \<in> set (trace (snd ?r)) \<and>
        MakeDirs ''checkpoints/d_r'' \<in> set (trace (snd ?r)) \<and>
        WriteFile ''checkpoints/d_r/config.pkl'' (PickledArgs example_args)
          \<in> set (trace (snd ?r))"
    by (auto simp: a b c p)
  with fails show ?thesis
    by simp
qed

text \<open>
  C4, as the code has it. Construction performs its actions in this order: it checks that
  \<open>checkpoint_interval\<close> is a multiple of \<open>test_log_interval\<close> (nothing is called when that
  fails), seeds the random generators, creates the run directories and persists the
  configuration (both skipped in dry-run mode), triggers collaborator setup (dataset, then
  model, then optimizer creation when requested), and only then validates collaborator
  completeness. Whatever the outcome, the calls made are a prefix of that sequence; they
  are the whole sequence when the validation is reached, and the validation passes
  exactly when no checked attribute is \<open>None\<close> after the setup.
\<close>

theorem construction_order:
  assumes "init env create_optimizer s = (r, s')" and "run_description s = Some d"
  shows "\<exists>new. trace s' = trace s @ new \<and>
           prefix new (construction_events env create_optimizer (args s) d) \<and>
           (\<not> test_log_interval (args s) dvd checkpoint_interval (args s) \<longrightarrow>
              new = [] \<and> r \<noteq> None) \<and>
           (r = None \<or> r = Some (AssertionError 212) \<longrightarrow>
              new = construction_events env create_optimizer (args s) d \<and>
              (r = None) = (None \<notin> set (attributes s' create_optimizer)))"
proof -
  from init_effect [OF assms(1)] assms(2) obtain new where new: "trace s' = trace s @ new"
    and p: "prefix new (construction_events env create_optimizer (args s) d)"
    and full: "r = None \<or> r = Some (AssertionError 212) \<longrightarrow>
              new = construction_events env create_optimizer (args s) d \<and>
              (r = None) = (None \<notin> set (attributes s' create_optimizer))"
    by auto
  have "new = [] \<and> r \<noteq> None"
    if "\<not> test_log_interval (args s) dvd checkpoint_interval (args s)"
    using init_rejects [OF that, of env create_optimizer] assms(1) new by auto
  with new p full show ?thesis
    by blast
qed

theorem construction_order_witness:
  "fst (init example_env True example_experiment) = None \<and>
   run_description example_experiment = Some ''r'' \<and>
   trace (snd (init example_env True example_experiment)) =
     [SetRndSeed 0, MakeDirs ''results/d_r'', MakeDirs ''results/d_r/imgs'',
      MakeDirs ''checkpoints/d_r'',
      WriteFile ''checkpoints/d_r/config.pkl'' (PickledArgs example_args),
      MakeAndSetDatamanager, MakeAndSetModel, PrintNumParams, MakeAndSetOptimizer]"
proof -
  let ?r = "init example_env True example_experiment"
  have ok: "fst ?r = None"
    by code_simp
  then have run: "?r = (None, snd ?r)"
    by (simp add: prod_eq_iff)
  have d: "run_description example_experiment = Some ''r''"
    and a: "args example_experiment = example_args" "trace example_experiment = []"
    by (simp_all add: example_experiment_def)
  have events: "construction_events example_env True example_args ''r'' =
     [SetRndSeed 0, MakeDirs ''results/d_r'', MakeDirs ''results/d_r/imgs'',
      MakeDirs ''checkpoints/d_r'',
      WriteFile ''checkpoints/d_r/config.pkl'' (PickledArgs example_args),
      MakeAndSetDatamanager, MakeAndSetModel, PrintNumParams, MakeAndSetOptimizer]"
    by (simp add: construction_events_def folder_events_def Let_def path_join_def
          example_args_def example_env_def)
  from construction_order [OF run d]
  have "trace (snd ?r) = construction_events example_env True example_args ''r''"
    by (auto simp: a)
  with ok d events show ?thesis
    by simp
qed

text \<open>
  C4 as stated fails: validation is not the first action. With an optimizer hook that
  leaves \<open>e.optimizer\<close> unset, the dataset and the model are built, the validation of line
  87 fails on the optimizer, and by then the directories have been created, the
  configuration written and all three setup hooks called.
\<close>

theorem validation_is_not_first:
  "fst (init no_optimizer_tensorboard_env True example_experiment)
     = Some (AssertionError 212) \<and>
   dataloaders (snd (init no_optimizer_tensorboard_env True example_experiment)) = Some 3 \<and>
   model (snd (init no_optimizer_tensorboard_env True example_experiment)) = Some () \<and>
   optimizer (snd (init no_optimizer_tensorboard_env True example_experiment)) = None \<and>
   trace (snd (init no_optimizer_tensorboard_env True example_experiment)) =
     [SetRndSeed 0, MakeDirs ''results/d_r'', MakeDirs ''results/d_r/imgs'',
      MakeDirs ''checkpoints/d_r'', MakeDirs ''tensorboard_logs/d_r'',
      SummaryWriter ''tensorboard_logs/d_r'',
      WriteFile ''checkpoints/d_r/config.pkl'' (PickledArgs example_args),
      MakeAndSetDatamanager, MakeAndSetModel, PrintNumParams, MakeAndSetOptimizer]"
  by code_simp

text \<open>
  C7, as the code has it. When every step of the evaluation pass succeeds, the model is put
  in eval mode first and back in train mode last, with no other change of mode in
  between, so it is in eval mode during the body and in train mode when \<open>_test\<close> returns.
  When a step raises (the test procedure, the additional-testing hook, logging or
  persistence), the exception leaves \<open>_test\<close> at once: \<open>train()\<close> is not reached and the
  model stays in eval mode.
\<close>

theorem eval_mode_restored_on_return:
  assumes "test env epoch s = (r, s')"
  shows "(r = None \<longrightarrow>
            training s' \<and>
            (\<exists>body. trace s' = trace s @ ModelEval # body @ [ModelTrain] \<and>
               ModelEval \<notin> set body \<and> ModelTrain \<notin> set body)) \<and>
         (r \<noteq> None \<and> \<not> raises env ModelEval (length (trace s)) \<longrightarrow> \<not> training s')"
proof -
  from assms have "exec [test env epoch] s = (r, s')"
    by (simp add: exec_single [symmetric])
  then show ?thesis
    by (auto simp: test_def Let_def exec_simps exec_scalars
        split: if_splits option.splits)
qed

theorem eval_mode_restored_on_return_witness:
  "fst (test example_env 1 example_trainer) = None \<and>
   training (snd (test example_env 1 example_trainer))"
proof -
  let ?r = "test example_env 1 example_trainer"
  have ok: "fst ?r = None"
    by code_simp
  then have "?r = (None, snd ?r)"
    by (simp add: prod_eq_iff)
  from eval_mode_restored_on_return [OF this] ok show ?thesis
    by simp
qed

text \<open>
  C7 as stated fails: the model is not back in train mode after \<open>_test\<close> fails. The driver
  built on the example has its model in train mode; when the test procedure raises, the
  evaluation pass raises and leaves the model in eval mode.
\<close>

theorem eval_mode_left_on_failure:
  "training example_trainer \<and>
   fst (test failing_test_env 1 example_trainer) = Some Raised \<and>
   \<not> training (snd (test failing_test_env 1 example_trainer))"
  by code_simp

text \<open>
  C8. In every training iteration the per-step hooks are called in this order: zero
  gradients, forward pass, backward, accumulation of the metrics into the summarizer,
  optimizer step, increment of the global step. An iteration that completes has called
  exactly these six, each once, and has moved the global step by one; an iteration that
  raises has called a prefix of them and has left the global step as it was.
\<close>

theorem train_step_hook_order:
  assumes "train_step env epoch s = (r, s')"
  shows "\<exists>new. trace s' = trace s @ new \<and>
           prefix (filter step_hook new) (step_hooks env (global_step s)) \<and>
           (r = None \<longrightarrow>
              filter step_hook new = step_hooks env (global_step s) \<and>
              global_step s' = global_step s + 1) \<and>
           (r \<noteq> None \<longrightarrow> global_step s' = global_step s)"
  using train_step_effect [OF assms] by blast

theorem train_step_hook_order_witness:
  "fst (train_step example_env 1 example_trainer) = None \<and>
   filter step_hook (trace (snd (train_step example_env 1 example_trainer))) =
     [ZeroGrad, ForwardPass, Backward, SummarizerAdd [(''loss'', 2)], OptimizerStep,
      IncrementGlobalStep] \<and>
   global_step (snd (train_step example_env 1 example_trainer)) = 1"
proof -
  let ?r = "train_step example_env 1 example_trainer"
  have ok: "fst ?r = None"
    by code_simp
  then have run: "?r = (None, snd ?r)"
    by (simp add: prod_eq_iff)
  have before: "filter step_hook (trace example_trainer) = []" "global_step example_trainer = 0"
    by code_simp+
  have hooks: "step_hooks example_env 0 =
     [ZeroGrad, ForwardPass, Backward, SummarizerAdd [(''loss'', 2)], OptimizerStep,
      IncrementGlobalStep]"
    by (simp add: step_hooks_def example_env_def)
  from train_step_hook_order [OF run] obtain new
    where "trace (snd ?r) = trace example_trainer @ new"
      and "filter step_hook new = step_hooks example_env (global_step example_trainer)"
      and "global_step (snd ?r) = global_step example_trainer + 1"
    by blast
  with ok before hooks show ?thesis
    by simp
qed

text \<open>
  C6. During an execution of \<open>run\<close>, whether it returns or raises, the checkpoint hook is
  called at a step only if the step is positive and a multiple of \<open>checkpoint_interval\<close>.
  When \<open>checkpoint_interval\<close> is a non-zero multiple of \<open>test_log_interval\<close> (the
  construction-time divisibility) and \<open>run\<close> returns, the hook has been called at a step
  if and only if the step is one of those the run went through and is positive and a
  multiple of \<open>checkpoint_interval\<close>.
\<close>

theorem checkpoint_iff_due:
  assumes "run env s = (r, s')"
  shows "\<exists>new. trace s' = trace s @ new \<and>
           (\<forall>folder k. ModelCheckpoint folder k \<in> set new \<longrightarrow>
              0 < k \<and> checkpoint_interval (args s) \<noteq> 0 \<and>
              k mod checkpoint_interval (args s) = 0) \<and>
           (r = None \<and> checkpoint_interval (args s) \<noteq> 0 \<and>
            test_log_interval (args s) dvd checkpoint_interval (args s) \<longrightarrow>
              (\<exists>n. dataloaders s = Some n \<and>
                 (\<forall>k. (\<exists>folder. ModelCheckpoint folder k \<in> set new) \<longleftrightarrow>
                      global_step s \<le> k \<and>
                      k < global_step s + int (nat (max_epochs s) * n) \<and>
                      0 < k \<and> k mod checkpoint_interval (args s) = 0)))"
proof -
  from run_due_only [OF assms] obtain new where new: "trace s' = trace s @ new"
    and due: "list_all (checkpoint_due (args s)) (checkpoint_steps new)"
    by (auto simp: due_only_def)
  have only_if:
    "0 < k \<and> checkpoint_interval (args s) \<noteq> 0 \<and> k mod checkpoint_interval (args s) = 0"
    if "ModelCheckpoint folder k \<in> set new" for folder k
  proof -
    from that have "k \<in> set (checkpoint_steps new)"
      by (auto simp: checkpoint_steps_mem)
    with due have "checkpoint_due (args s) k"
      by (simp add: list_all_iff)
    then show ?thesis
      by (simp add: checkpoint_due_def)
  qed
  have iff: "\<exists>n. dataloaders s = Some n \<and>
                 (\<forall>k. (\<exists>folder. ModelCheckpoint folder k \<in> set new) \<longleftrightarrow>
                      global_step s \<le> k \<and>
                      k < global_step s + int (nat (max_epochs s) * n) \<and>
                      0 < k \<and> k mod checkpoint_interval (args s) = 0)"
    if r: "r = None" and C: "checkpoint_interval (args s) \<noteq> 0"
      "test_log_interval (args s) dvd checkpoint_interval (args s)"
  proof -
    from run_advanced [of env s s'] assms r obtain n s1 where n: "dataloaders s = Some n"
      and s1: "trace s1 = trace s @ [ModelTrain]" "static s1 = static s"
        "global_step s1 = global_step s"
      and adv: "advanced s1 (nat (max_epochs s) * n) s'"
      by auto
    from adv obtain new1 where new1: "trace s' = trace s1 @ new1"
      "checkpoint_steps new1 = due_steps (args s1) (global_step s1) (nat (max_epochs s) * n)"
      by (auto simp: advanced_def)
    from s1(2) have a: "args s1 = args s"
      by (simp add: static_def)
    from new new1(1) s1(1) have "new = ModelTrain # new1"
      by simp
    then have "checkpoint_steps new = due_steps (args s) (global_step s) (nat (max_epochs s) * n)"
      using new1(2) a s1(3) by simp
    then have "(\<exists>folder. ModelCheckpoint folder k \<in> set new) \<longleftrightarrow>
                 global_step s \<le> k \<and> k < global_step s + int (nat (max_epochs s) * n) \<and>
                 0 < k \<and> k mod checkpoint_interval (args s) = 0" for k
      using checkpoint_steps_mem [of k new] due_steps_mem [of k "args s" "global_step s"]
        checkpoint_due_dvd [OF C, of k]
      by auto
    with n show ?thesis
      by blast
  qed
  from new only_if iff show ?thesis
    by blast
qed

theorem checkpoint_iff_due_witness:
  "fst (run example_env example_trainer) = None \<and>
   checkpoint_interval (args example_trainer) = 2 \<and>
   test_log_interval (args example_trainer) = 1 \<and>
   (\<exists>folder. ModelCheckpoint folder 2 \<in> set (trace (snd (run example_env example_trainer)))) \<and>
   (\<forall>folder. ModelCheckpoint folder 1
      \<notin> set (drop (length (trace example_trainer))
               (trace (snd (run example_env example_trainer)))))"
proof -
  let ?r = "run example_env example_trainer"
  have ok: "fst ?r = None"
    by code_simp
  then have run: "?r = (None, snd ?r)"
    by (simp add: prod_eq_iff)
  have facts: "checkpoint_interval (args example_trainer) = 2"
    "test_log_interval (args example_trainer) = 1"
    "dataloaders example_trainer = Some 3" "max_epochs example_trainer = 1"
    "global_step example_trainer = 0"
    by code_simp+
  from checkpoint_iff_due [OF run] obtain new
    where new: "trace (snd ?r) = trace example_trainer @ new"
      and iff: "\<And>k. (\<exists>folder. ModelCheckpoint folder k \<in> set new) \<longleftrightarrow>
                      0 \<le> k \<and> k < 3 \<and> 0 < k \<and> k mod 2 = 0"
    by (auto simp: facts)
  from iff [of 2] have "\<exists>folder. ModelCheckpoint folder 2 \<in> set new"
    by simp
  moreover from iff [of 1] have "\<forall>folder. ModelCheckpoint folder 1 \<notin> set new"
    by simp
  ultimately show ?thesis
    using ok facts new by auto
qed

text \<open>
  C9. If the model's \<open>global_step\<close> at the first training batch is not a multiple of
  \<open>test_log_interval\<close> (or \<open>test_log_interval\<close> is zero), \<open>run\<close> fails on the first batch:
  it raises, and the global step is as it was. With a non-zero \<open>test_log_interval\<close>, a model
  and an optimizer, and collaborators that do not raise, the error is the
  \<open>AttributeError\<close> of \<open>progress.update()\<close> on \<open>None\<close>. So a \<open>run\<close> with at least one batch
  returns only when the initial step is a multiple of \<open>test_log_interval\<close>.
\<close>

theorem run_fails_without_progress_bar:
  assumes "dataloaders s = Some n" and "0 < n" and "1 \<le> max_epochs s"
    and "test_log_interval (args s) = 0 \<or>
         global_step s mod test_log_interval (args s) \<noteq> 0"
  shows "fst (run env s) \<noteq> None \<and>
         global_step (snd (run env s)) = global_step s \<and>
         (test_log_interval (args s) \<noteq> 0 \<and> model s \<noteq> None \<and> optimizer s \<noteq> None \<and>
          (\<forall>ev k. \<not> raises env ev k)
            \<longrightarrow> fst (run env s) = Some AttributeError)"
  using assms by (rule run_without_progress)

theorem run_fails_without_progress_bar_witness:
  "global_step resumed_trainer = 3 \<and> test_log_interval (args resumed_trainer) = 2 \<and>
   fst (run resumed_env resumed_trainer) = Some AttributeError \<and>
   global_step (snd (run resumed_env resumed_trainer)) = 3"
proof -
  have facts: "dataloaders resumed_trainer = Some 3" "max_epochs resumed_trainer = 1"
    "global_step resumed_trainer = 3" "test_log_interval (args resumed_trainer) = 2"
    "model resumed_trainer \<noteq> None" "optimizer resumed_trainer \<noteq> None"
    by code_simp+
  have quiet: "\<forall>ev k. \<not> raises resumed_env ev k"
    by (simp add: resumed_env_def example_env_def)
  have "test_log_interval (args resumed_trainer) = 0 \<or>
        global_step resumed_trainer mod test_log_interval (args resumed_trainer) \<noteq> 0"
    by (simp add: facts)
  from run_fails_without_progress_bar [OF facts(1) _ _ this, of resumed_env] facts quiet
  show ?thesis
    by simp
qed

text \<open>
  C1 fails on the code. The training log and the evaluation pass write two different
  histories to the same \<open>log.pkl\<close>, each overwriting the other. On the example the file
  receives the test history after steps 0 and 1, then the train history, which holds step
  1 only: the snapshot written by the train-log flush does not contain step 0 of the
  snapshot before it.
\<close>

theorem log_snapshots_not_growing:
  "fst (run example_env example_trainer) = None \<and>
   log_path example_trainer = ''results/d_r/log.pkl'' \<and>
   log_snapshots ''results/d_r/log.pkl'' (trace (snd (run example_env example_trainer))) =
     [[(''loss'', [(0, 1)])],
      [(''loss'', [(0, 1), (1, 1)])],
      [(''loss'', [(1, 2)])],
      [(''loss'', [(0, 1), (1, 1), (2, 1)])]] \<and>
   \<not> covers [(''loss'', [(1, 2)])] [(''loss'', [(0, 1), (1, 1)])] \<and>
   \<not> growing
       (log_snapshots ''results/d_r/log.pkl'' (trace (snd (run example_env example_trainer))))"
  by code_simp

text \<open>
  C2 fails on the code. After three batches with \<open>log_interval = 2\<close> the train history
  holds one record, as many as the claim says, but its step key is 1: the record is added
  under \<open>step\<close>, while the condition of line 142 and the print hook of line 149 use
  \<open>step + 1\<close>.
\<close>

theorem train_history_step_key:
  "fst (run example_env example_trainer) = None \<and>
   global_step example_trainer = 0 \<and>
   global_step (snd (run example_env example_trainer)) = 3 \<and>
   log_interval (args example_trainer) = 2 \<and>
   train_history (snd (run example_env example_trainer)) = [(1, [(''loss'', 2)])] \<and>
   PrintTrainLog 2 1 [(''loss'', 2)] \<in> set (trace (snd (run example_env example_trainer)))"
  by code_simp

text \<open>
  C3 fails on the code. In dry-run mode the constructor creates no folder and writes no
  file, and \<open>run\<close> writes no \<open>log.pkl\<close>; but the checkpoint hook of line 116 is not guarded
  by \<open>dry_run\<close> as the writes of lines 154 and 186 are, and it is called at step 2, on a
  checkpoint folder that was never created.
\<close>

theorem dry_run_calls_checkpoint:
  "dry_run (args dry_trainer) \<and>
   fst (init example_env True dry_experiment) = None \<and>
   trace dry_trainer =
     [SetRndSeed 0, MakeAndSetDatamanager, MakeAndSetModel, PrintNumParams,
      MakeAndSetOptimizer] \<and>
   fst (run example_env dry_trainer) = None \<and>
   ModelCheckpoint ''checkpoints/d_r'' 2 \<in> set (trace (snd (run example_env dry_trainer))) \<and>
   MakeDirs ''checkpoints/d_r'' \<notin> set (trace (snd (run example_env dry_trainer)))"
  by code_simp

end
